theory Spec2Isabelle
  imports Complex_Main
begin

section \<open>JavaScript values as they reach the handlers\<close>

text \<open>
  The server is plain JavaScript: whatever a client puts on the wire reaches the handlers,
  so a payload is any JSON value, or \<open>undefined\<close> when the client emitted the event with no
  argument. A finite double is a rational; \<open>NaN\<close> does not survive the JSON encoding of
  the transport. An object is the list of its own properties, the first binding of a name
  being the one that is read.
\<close>

datatype jsval =
    JUndefined
  | JNull
  | JBool bool
  | JNum rat
  | JStr string
  | JArr "jsval list"
  | JObj "(string \<times> jsval) list"

datatype js_error = TypeError

text \<open>The conversion to boolean that \<^verbatim>\<open>if (socket.username)\<close> performs.\<close>

fun truthy :: "jsval \<Rightarrow> bool" where
  "truthy JUndefined = False"
| "truthy JNull = False"
| "truthy (JBool b) = b"
| "truthy (JNum n) = (n \<noteq> 0)"
| "truthy (JStr s) = (s \<noteq> [])"
| "truthy (JArr xs) = True"
| "truthy (JObj fs) = True"

text \<open>
  The property read \<^verbatim>\<open>message.text\<close>, \<^verbatim>\<open>message.username\<close>: a \<open>TypeError\<close> on
  \<open>undefined\<close> and \<open>null\<close>, the property's value on an object that has it, and
  \<open>undefined\<close> otherwise. The handlers read only \<open>text\<close> and \<open>username\<close>, which no
  built-in prototype defines, so a string, a number, a boolean and an array give
  \<open>undefined\<close> for them.
\<close>

fun getProp :: "jsval \<Rightarrow> string \<Rightarrow> js_error + jsval" where
  "getProp JUndefined name = Inl TypeError"
| "getProp JNull name = Inl TypeError"
| "getProp (JObj fs) name = Inr (case map_of fs name of None \<Rightarrow> JUndefined | Some v \<Rightarrow> v)"
| "getProp v name = Inr JUndefined"

section \<open>Messages\<close>

text \<open>
  \<^verbatim>\<open>interface MessageData { text; username; type: "user" | "system" }\<close> of
  \<^verbatim>\<open>socket.ts\<close>. The server copies \<open>text\<close> and \<open>username\<close> from the wire unchecked, so
  they are JavaScript values; \<open>type\<close> is always one of the two literals.
\<close>

datatype MessageType = User | System

record MessageData =
  md_text :: jsval
  md_username :: jsval
  md_type :: MessageType

section \<open>The server\<close>

text \<open>
  A connected socket: the identifier Socket.IO gave it, and the \<open>username\<close> property the
  \<open>user_joined\<close> handler stores on it (\<open>undefined\<close> until then).
\<close>

record socket =
  sid :: nat
  username :: jsval

record server =
  sockets :: "socket list"

definition initial :: server where
  "initial = \<lparr>sockets = []\<rparr>"

datatype effect =
    ConsoleLog "jsval list"
  | ConsoleError jsval
  | Emit nat "nat list" MessageData
  | ProcessExit nat

datatype status = Running | Uncaught js_error | Exited nat

type_synonym result = "server \<times> effect list \<times> status"

definition state_of :: "result \<Rightarrow> server" where
  "state_of r = fst r"

definition effects_of :: "result \<Rightarrow> effect list" where
  "effects_of r = fst (snd r)"

definition status_of :: "result \<Rightarrow> status" where
  "status_of r = snd (snd r)"

subsection \<open>The connection registry\<close>

definition find_socket :: "nat \<Rightarrow> server \<Rightarrow> socket option" where
  "find_socket i s = find (\<lambda>k. sid k = i) (sockets s)"

text \<open>
  Modelled from the spec: \<open>register\<close> of the Connection Registry (section 4.1). The source
  leaves it to the Socket.IO library behind \<^verbatim>\<open>new Server(httpServer)\<close>, which is not
  under src/. It adds a newly opened channel, unlabelled, and fails only if the identifier
  already exists.
\<close>

definition register :: "nat \<Rightarrow> server \<Rightarrow> server option" where
  "register i s =
     (case find_socket i s of
        Some k \<Rightarrow> None
      | None \<Rightarrow> Some (s\<lparr>sockets := sockets s @ [\<lparr>sid = i, username = JUndefined\<rparr>]\<rparr>))"

text \<open>
  Modelled from the spec: \<open>unregister\<close> of the Connection Registry (section 4.1), again
  the library's part. It removes the channel and hands back what was known of it; on an
  identifier that is not registered it reports "not found" (\<open>None\<close>).
\<close>

definition unregister :: "nat \<Rightarrow> server \<Rightarrow> (socket \<times> server) option" where
  "unregister i s =
     (case find_socket i s of
        None \<Rightarrow> None
      | Some k \<Rightarrow> Some (k, s\<lparr>sockets := filter (\<lambda>k. sid k \<noteq> i) (sockets s)\<rparr>))"

text \<open>
  Modelled from the spec: \<open>all\<close> of the Connection Registry, the live channels at call
  time, in registration order.
\<close>

definition all_channels :: "server \<Rightarrow> nat list" where
  "all_channels s = map sid (sockets s)"

text \<open>\<^verbatim>\<open>socket.username = username\<close> on the socket with identifier \<open>i\<close>.\<close>

definition set_username :: "nat \<Rightarrow> jsval \<Rightarrow> server \<Rightarrow> server" where
  "set_username i v s =
     s\<lparr>sockets := map (\<lambda>k. if sid k = i then k\<lparr>username := v\<rparr> else k) (sockets s)\<rparr>"

text \<open>
  \<^verbatim>\<open>io.emit("message", m)\<close>, called in a handler of socket \<open>i\<close>: one delivery of \<open>m\<close> to
  every channel registered at that instant. The origin \<open>i\<close> is recorded so that an
  emission can be attributed to the channel whose handler made it.
\<close>

definition io_emit :: "server \<Rightarrow> nat \<Rightarrow> MessageData \<Rightarrow> effect" where
  "io_emit s i m = Emit i (all_channels s) m"

subsection \<open>The handlers\<close>

definition joined :: "jsval \<Rightarrow> MessageData" where
  "joined v = \<lparr>md_text = JStr ''has joined the chat'', md_username = v, md_type = System\<rparr>"

definition left :: "jsval \<Rightarrow> MessageData" where
  "left v = \<lparr>md_text = JStr ''has left the chat'', md_username = v, md_type = System\<rparr>"

text \<open>\<^verbatim>\<open>socket.on("user_joined", (username) => ...)\<close>\<close>

definition on_user_joined :: "nat \<Rightarrow> jsval \<Rightarrow> server \<Rightarrow> result" where
  "on_user_joined i v s =
     (let s' = set_username i v s
      in (s', [ConsoleLog [JStr ''User joined:'', v], io_emit s' i (joined v)], Running))"

text \<open>
  \<^verbatim>\<open>socket.on("message", (message) => ...)\<close>: the log line comes first, then the object
  literal is built, reading \<open>message.text\<close> and then \<open>message.username\<close>; a read that
  throws leaves the handler before anything is emitted.
\<close>

definition on_message :: "nat \<Rightarrow> jsval \<Rightarrow> server \<Rightarrow> result" where
  "on_message i message s =
     (case getProp message ''text'' of
        Inl err \<Rightarrow> (s, [ConsoleLog [JStr ''Message received:'', message]], Uncaught err)
      | Inr t \<Rightarrow>
          (case getProp message ''username'' of
             Inl err \<Rightarrow> (s, [ConsoleLog [JStr ''Message received:'', message]], Uncaught err)
           | Inr u \<Rightarrow>
               (s, [ConsoleLog [JStr ''Message received:'', message],
                    io_emit s i \<lparr>md_text = t, md_username = u, md_type = User\<rparr>], Running)))"

text \<open>
  \<^verbatim>\<open>socket.on("disconnect", () => ...)\<close>, run on the socket \<open>k\<close> that has just been taken
  out of the registry \<open>s\<close>.
\<close>

definition on_disconnect :: "socket \<Rightarrow> server \<Rightarrow> result" where
  "on_disconnect k s =
     (if truthy (username k)
      then (s, [ConsoleLog [JStr ''User disconnected:'', username k],
                io_emit s (sid k) (left (username k))], Running)
      else (s, [], Running))"

text \<open>\<^verbatim>\<open>httpServer.once("error", (err) => { console.error(err); process.exit(1); })\<close>\<close>

definition on_error :: "jsval \<Rightarrow> server \<Rightarrow> result" where
  "on_error err s = (s, [ConsoleError err, ProcessExit 1], Exited 1)"

subsection \<open>Dispatch\<close>

text \<open>
  What arrives at the process: a new connection (with the identifier the library gives
  it), the three events of a socket, the HTTP server's \<open>error\<close> event and the callback of
  \<open>listen\<close>. The handlers of a socket are closures registered when it connects, so an
  event for an identifier with no registered socket has no handler to run.
\<close>

datatype event =
    Ev_connection nat
  | Ev_user_joined nat jsval
  | Ev_message nat jsval
  | Ev_disconnect nat
  | Ev_error jsval
  | Ev_listening

fun step :: "event \<Rightarrow> server \<Rightarrow> result" where
  "step (Ev_connection i) s =
     (case register i s of
        None \<Rightarrow> (s, [], Running)
      | Some s' \<Rightarrow> (s', [ConsoleLog [JStr ''A user connected'']], Running))"
| "step (Ev_user_joined i v) s =
     (case find_socket i s of
        None \<Rightarrow> (s, [], Running)
      | Some k \<Rightarrow> on_user_joined i v s)"
| "step (Ev_message i message) s =
     (case find_socket i s of
        None \<Rightarrow> (s, [], Running)
      | Some k \<Rightarrow> on_message i message s)"
| "step (Ev_disconnect i) s =
     (case unregister i s of
        None \<Rightarrow> (s, [], Running)
      | Some (k, s') \<Rightarrow> on_disconnect k s')"
| "step (Ev_error err) s = on_error err s"
| "step Ev_listening s = (s, [ConsoleLog [JStr ''> Ready on http://localhost:3000'']], Running)"

text \<open>
  A run of the process over a sequence of events: it goes on while the handlers return,
  and ends with the first handler that throws or exits.
\<close>

fun run :: "server \<Rightarrow> event list \<Rightarrow> result" where
  "run s [] = (s, [], Running)"
| "run s (e # es) =
     (case step e s of
        (s', out, Running) \<Rightarrow>
          (case run s' es of (s'', out', st) \<Rightarrow> (s'', out @ out', st))
      | (s', out, Uncaught err) \<Rightarrow> (s', out, Uncaught err)
      | (s', out, Exited c) \<Rightarrow> (s', out, Exited c))"

text \<open>The system messages emitted by the handlers of socket \<open>i\<close>, in order.\<close>

fun system_events :: "nat \<Rightarrow> effect list \<Rightarrow> MessageData list" where
  "system_events i [] = []"
| "system_events i (Emit j rs m # out) =
     (if j = i \<and> md_type m = System then m # system_events i out else system_events i out)"
| "system_events i (x # out) = system_events i out"

text \<open>The events of a channel's life cycle: its connection, its joins, its disconnection.\<close>

fun lifecycle :: "nat \<Rightarrow> event \<Rightarrow> bool" where
  "lifecycle i (Ev_connection j) = (j = i)"
| "lifecycle i (Ev_user_joined j v) = (j = i)"
| "lifecycle i (Ev_disconnect j) = (j = i)"
| "lifecycle i e = False"

text \<open>The join events of channel \<open>i\<close>.\<close>

fun is_join :: "nat \<Rightarrow> event \<Rightarrow> bool" where
  "is_join i (Ev_user_joined j v) = (j = i)"
| "is_join i e = False"

text \<open>
  Channel \<open>i\<close> carries no label: it is not connected, or it is connected and its
  \<open>username\<close> is still \<open>undefined\<close>.
\<close>

definition unlabelled :: "nat \<Rightarrow> server \<Rightarrow> bool" where
  "unlabelled i s = (case find_socket i s of None \<Rightarrow> True | Some k \<Rightarrow> username k = JUndefined)"


section \<open>The client\<close>

text \<open>
  \<^verbatim>\<open>interface Message\<close> of the chat page, and \<^verbatim>\<open>onMessage\<close>, which appends to the
  \<open>messages\<close> state. The random identifier and the clock reading are inputs.
\<close>

record Message =
  m_id :: string
  m_text :: jsval
  m_timestamp :: int
  m_username :: jsval
  m_type :: MessageType

definition onMessage :: "string \<Rightarrow> int \<Rightarrow> MessageData \<Rightarrow> Message list \<Rightarrow> Message list" where
  "onMessage rid now message prev =
     prev @ [\<lparr>m_id = rid, m_text = md_text message, m_timestamp = now,
              m_username = md_username message, m_type = User\<rparr>]"

text \<open>The messages state after a sequence of deliveries, each with its identifier and time.\<close>

fun receive_all :: "(string \<times> int \<times> MessageData) list \<Rightarrow> Message list \<Rightarrow> Message list" where
  "receive_all [] prev = prev"
| "receive_all ((rid, now, message) # ds) prev = receive_all ds (onMessage rid now message prev)"

text \<open>The three class names the page computes from \<open>msg.type\<close> when it renders a message.\<close>

definition card_class :: "Message \<Rightarrow> string" where
  "card_class msg =
     ''bg-white rounded-lg shadow-sm p-4 mb-3 border '' @
     (if m_type msg = System then ''border-slate-200 bg-slate-50'' else ''border-slate-100'')"

definition name_class :: "Message \<Rightarrow> string" where
  "name_class msg =
     ''font-semibold '' @ (if m_type msg = System then ''text-slate-600'' else ''text-slate-900'')"

definition text_class :: "Message \<Rightarrow> string" where
  "text_class msg =
     (if m_type msg = System then ''text-slate-600 italic'' else ''text-slate-900'') @ '' text-base''"

section \<open>Facts about the registry and about runs\<close>

lemma find_sid: "find (\<lambda>k. sid k = i) xs = Some k \<Longrightarrow> sid k = i"
  by (induction xs) (auto split: if_splits)

lemma find_socket_sid: "find_socket i s = Some k \<Longrightarrow> sid k = i"
  unfolding find_socket_def by (rule find_sid)

lemma find_map_username:
  "find (\<lambda>k. sid k = j) (map (\<lambda>k. if sid k = i then k\<lparr>username := v\<rparr> else k) xs) =
     (if j = i then map_option (\<lambda>k. k\<lparr>username := v\<rparr>) (find (\<lambda>k. sid k = j) xs)
      else find (\<lambda>k. sid k = j) xs)"
  by (induction xs) auto

lemma find_socket_set_username:
  "find_socket j (set_username i v s) =
     (if j = i then map_option (\<lambda>k. k\<lparr>username := v\<rparr>) (find_socket j s) else find_socket j s)"
  unfolding find_socket_def set_username_def
  by (simp add: find_map_username)

lemma find_filter_neq:
  "find (\<lambda>k. sid k = j) (filter (\<lambda>k. sid k \<noteq> i) xs) =
     (if j = i then None else find (\<lambda>k. sid k = j) xs)"
  by (induction xs) auto

lemma find_socket_unregister:
  "unregister i s = Some (k, s') \<Longrightarrow>
     find_socket i s = Some k \<and> find_socket j s' = (if j = i then None else find_socket j s)"
  unfolding unregister_def
  by (auto simp: find_socket_def find_filter_neq split: option.splits)

lemma unregister_None: "unregister i s = None \<longleftrightarrow> find_socket i s = None"
  unfolding unregister_def by (auto split: option.splits)

lemma find_snoc:
  "find P (xs @ [x]) = (case find P xs of Some y \<Rightarrow> Some y | None \<Rightarrow> if P x then Some x else None)"
  by (induction xs) auto

lemma find_socket_register:
  "register i s = Some s' \<Longrightarrow>
     find_socket i s = None \<and>
     find_socket j s' = (if j = i then Some \<lparr>sid = i, username = JUndefined\<rparr> else find_socket j s)"
  unfolding register_def
  by (auto simp: find_socket_def find_snoc split: option.splits)

lemma register_None: "register i s = None \<longleftrightarrow> find_socket i s \<noteq> None"
  unfolding register_def by (auto split: option.splits)

lemma system_events_append:
  "system_events i (xs @ ys) = system_events i xs @ system_events i ys"
  by (induction i xs rule: system_events.induct) auto

lemma result_proj [simp]:
  "state_of (s, out, st) = s" "effects_of (s, out, st) = out" "status_of (s, out, st) = st"
  by (simp_all add: state_of_def effects_of_def status_of_def)

lemma run_Cons_Running:
  "status_of (step e s) = Running \<Longrightarrow>
     run s (e # es) =
       (state_of (run (state_of (step e s)) es),
        effects_of (step e s) @ effects_of (run (state_of (step e s)) es),
        status_of (run (state_of (step e s)) es))"
  by (cases "step e s"; cases "run (fst (step e s)) es")
     (auto simp: status_of_def state_of_def effects_of_def split: status.splits)

lemma run_Cons_stopped:
  "status_of (step e s) \<noteq> Running \<Longrightarrow> run s (e # es) = step e s"
  by (cases "step e s") (auto simp: status_of_def split: status.splits)

declare run.simps(2) [simp del]

lemma step_other:
  assumes nl: "\<not> lifecycle i e"
  shows "find_socket i (state_of (step e s)) = find_socket i s \<and>
     system_events i (effects_of (step e s)) = []"
proof (cases e)
  case (Ev_connection j)
  with nl have ji: "j \<noteq> i" by simp
  show ?thesis
  proof (cases "register j s")
    case None
    with Ev_connection show ?thesis by (simp add: state_of_def effects_of_def)
  next
    case (Some s')
    from find_socket_register [OF Some, of i] ji have "find_socket i s' = find_socket i s" by simp
    with Ev_connection Some show ?thesis by (simp add: state_of_def effects_of_def)
  qed
next
  case (Ev_user_joined j v)
  with nl have ji: "j \<noteq> i" by simp
  with Ev_user_joined show ?thesis
    by (simp add: state_of_def effects_of_def on_user_joined_def io_emit_def Let_def
        find_socket_set_username split: option.splits)
next
  case (Ev_message j m)
  then show ?thesis
    by (simp add: state_of_def effects_of_def on_message_def io_emit_def
        split: option.splits sum.splits)
next
  case (Ev_disconnect j)
  with nl have ji: "j \<noteq> i" by simp
  show ?thesis
  proof (cases "unregister j s")
    case None
    with Ev_disconnect show ?thesis by (simp add: state_of_def effects_of_def)
  next
    case (Some p)
    obtain k s' where p: "p = (k, s')" by (cases p)
    from find_socket_unregister [OF Some [unfolded p], of i] ji
    have f: "find_socket i s' = find_socket i s" and k: "find_socket j s = Some k" by simp_all
    from find_socket_sid [OF k] ji have "sid k \<noteq> i" by simp
    with Ev_disconnect Some p f show ?thesis
      by (simp add: state_of_def effects_of_def on_disconnect_def io_emit_def)
  qed
next
  case (Ev_error err)
  then show ?thesis by (simp add: state_of_def effects_of_def on_error_def)
next
  case Ev_listening
  then show ?thesis by (simp add: state_of_def effects_of_def)
qed


lemma run_skip:
  "filter (lifecycle i) evs = [] \<Longrightarrow>
     find_socket i (state_of (run s evs)) = find_socket i s \<and>
     system_events i (effects_of (run s evs)) = []"
proof (induction evs arbitrary: s)
  case Nil
  show ?case by (simp add: state_of_def effects_of_def)
next
  case (Cons e es)
  from Cons.prems have nl: "\<not> lifecycle i e" and rest: "filter (lifecycle i) es = []"
    by (auto split: if_splits)
  show ?case
  proof (cases "status_of (step e s) = Running")
    case True
    from Cons.IH [OF rest, of "state_of (step e s)"] step_other [OF nl, of s]
    show ?thesis
      by (simp add: run_Cons_Running [OF True] system_events_append)
  next
    case False
    with step_other [OF nl, of s] show ?thesis by (simp add: run_Cons_stopped)
  qed
qed

lemma run_append_Running:
  "status_of (run s pre) = Running \<Longrightarrow>
     run s (pre @ post) =
       (state_of (run (state_of (run s pre)) post),
        effects_of (run s pre) @ effects_of (run (state_of (run s pre)) post),
        status_of (run (state_of (run s pre)) post))"
proof (induction pre arbitrary: s)
  case Nil
  show ?case by (simp add: state_of_def effects_of_def status_of_def)
next
  case (Cons e es)
  show ?case
  proof (cases "status_of (step e s) = Running")
    case True
    with Cons.prems have "status_of (run (state_of (step e s)) es) = Running"
      by (simp add: run_Cons_Running status_of_def)
    from Cons.IH [OF this] show ?thesis
      by (simp add: run_Cons_Running [OF True])
  next
    case False
    with Cons.prems show ?thesis by (simp add: run_Cons_stopped)
  qed
qed

lemma run_append_stopped:
  "status_of (run s pre) \<noteq> Running \<Longrightarrow> run s (pre @ post) = run s pre"
proof (induction pre arbitrary: s)
  case Nil
  then show ?case by (simp add: status_of_def)
next
  case (Cons e es)
  show ?case
  proof (cases "status_of (step e s) = Running")
    case True
    with Cons.prems have "status_of (run (state_of (step e s)) es) \<noteq> Running"
      by (simp add: run_Cons_Running status_of_def)
    from Cons.IH [OF this] show ?thesis
      by (simp add: run_Cons_Running [OF True])
  next
    case False
    then show ?thesis by (simp add: run_Cons_stopped)
  qed
qed

text \<open>A completed run through one event, cut into the part before it, its step and the rest.\<close>

lemma run_through:
  assumes ok: "status_of (run s (pre @ e # post)) = Running"
  shows "status_of (run s pre) = Running"
    and "status_of (step e (state_of (run s pre))) = Running"
    and "status_of (run (state_of (step e (state_of (run s pre)))) post) = Running"
    and "effects_of (run s (pre @ e # post)) =
           effects_of (run s pre) @ effects_of (step e (state_of (run s pre))) @
           effects_of (run (state_of (step e (state_of (run s pre)))) post)"
proof -
  show 1: "status_of (run s pre) = Running"
    using ok run_append_stopped [of s pre "e # post"] by (cases "status_of (run s pre) = Running") auto
  have r: "status_of (run (state_of (run s pre)) (e # post)) = Running"
    using ok by (simp add: run_append_Running [OF 1] status_of_def)
  show 2: "status_of (step e (state_of (run s pre))) = Running"
    using r run_Cons_stopped [of e "state_of (run s pre)" post]
    by (cases "status_of (step e (state_of (run s pre))) = Running") auto
  show "status_of (run (state_of (step e (state_of (run s pre)))) post) = Running"
    using r by (simp add: run_Cons_Running [OF 2] status_of_def)
  show "effects_of (run s (pre @ e # post)) =
           effects_of (run s pre) @ effects_of (step e (state_of (run s pre))) @
           effects_of (run (state_of (step e (state_of (run s pre)))) post)"
    by (simp add: run_append_Running [OF 1] run_Cons_Running [OF 2])
qed

lemma lifecycle_split:
  assumes "filter (lifecycle i) evs = e # rest"
  obtains pre post where "evs = pre @ e # post" "filter (lifecycle i) pre = []"
    "filter (lifecycle i) post = rest"
proof -
  from assms obtain us vs where "evs = us @ e # vs" "\<forall>u\<in>set us. \<not> lifecycle i u"
    "rest = filter (lifecycle i) vs"
    unfolding filter_eq_Cons_iff by blast
  then show thesis using that [of us vs] by (simp add: filter_empty_conv)
qed

lemma after_disconnect:
  assumes k: "find_socket i s = Some k"
    and evs: "filter (lifecycle i) evs = [Ev_disconnect i]"
    and ok: "status_of (run s evs) = Running"
  shows "system_events i (effects_of (run s evs)) =
           (if truthy (username k) then [left (username k)] else [])"
proof -
  from evs obtain pre post where split: "evs = pre @ Ev_disconnect i # post"
    and pre: "filter (lifecycle i) pre = []" and post: "filter (lifecycle i) post = []"
    by (rule lifecycle_split)
  let ?s1 = "state_of (run s pre)"
  let ?r = "step (Ev_disconnect i) ?s1"
  from run_skip [OF pre, of s] k have k1: "find_socket i ?s1 = Some k"
    and e1: "system_events i (effects_of (run s pre)) = []" by simp_all
  from find_socket_sid [OF k] have sid: "sid k = i" .
  from k1 have e2: "system_events i (effects_of ?r) =
      (if truthy (username k) then [left (username k)] else [])"
    by (simp add: unregister_def on_disconnect_def effects_of_def io_emit_def left_def sid)
  from run_skip [OF post, of "state_of ?r"]
  have e3: "system_events i (effects_of (run (state_of ?r) post)) = []" by simp
  from run_through(4) [OF ok [unfolded split]] e1 e2 e3 show ?thesis
    unfolding split by (simp add: system_events_append)
qed

lemma after_join:
  assumes k: "find_socket i s = Some k"
    and evs: "filter (lifecycle i) evs = [Ev_user_joined i v, Ev_disconnect i]"
    and ok: "status_of (run s evs) = Running"
  shows "system_events i (effects_of (run s evs)) =
           joined v # (if truthy v then [left v] else [])"
proof -
  from evs obtain pre post where split: "evs = pre @ Ev_user_joined i v # post"
    and pre: "filter (lifecycle i) pre = []"
    and post: "filter (lifecycle i) post = [Ev_disconnect i]"
    by (rule lifecycle_split)
  let ?s1 = "state_of (run s pre)"
  let ?r = "step (Ev_user_joined i v) ?s1"
  from run_skip [OF pre, of s] k have k1: "find_socket i ?s1 = Some k"
    and e1: "system_events i (effects_of (run s pre)) = []" by simp_all
  from k1 have e2: "system_events i (effects_of ?r) = [joined v]"
    by (simp add: on_user_joined_def effects_of_def io_emit_def joined_def Let_def)
  from k1 have k2: "find_socket i (state_of ?r) = Some (k\<lparr>username := v\<rparr>)"
    by (simp add: on_user_joined_def state_of_def Let_def find_socket_set_username)
  from after_disconnect [OF k2 post run_through(3) [OF ok [unfolded split]]]
  have e3: "system_events i (effects_of (run (state_of ?r) post)) =
      (if truthy v then [left v] else [])" by simp
  from run_through(4) [OF ok [unfolded split]] e1 e2 e3 show ?thesis
    unfolding split by (simp add: system_events_append)
qed

lemma lifetime:
  assumes k: "find_socket i s = None"
    and evs: "filter (lifecycle i) evs = [Ev_connection i, Ev_user_joined i v, Ev_disconnect i]"
    and ok: "status_of (run s evs) = Running"
  shows "system_events i (effects_of (run s evs)) =
           joined v # (if truthy v then [left v] else [])"
proof -
  from evs obtain pre post where split: "evs = pre @ Ev_connection i # post"
    and pre: "filter (lifecycle i) pre = []"
    and post: "filter (lifecycle i) post = [Ev_user_joined i v, Ev_disconnect i]"
    by (rule lifecycle_split)
  let ?s1 = "state_of (run s pre)"
  let ?r = "step (Ev_connection i) ?s1"
  from run_skip [OF pre, of s] k have k1: "find_socket i ?s1 = None"
    and e1: "system_events i (effects_of (run s pre)) = []" by simp_all
  from k1 obtain s2 where reg: "register i ?s1 = Some s2"
    by (cases "register i ?s1") (simp_all add: register_None)
  then have e2: "system_events i (effects_of ?r) = []" and s2: "state_of ?r = s2"
    by (simp_all add: effects_of_def state_of_def)
  from find_socket_register [OF reg, of i]
  have k2: "find_socket i (state_of ?r) = Some \<lparr>sid = i, username = JUndefined\<rparr>"
    unfolding s2 by simp
  from after_join [OF k2 post run_through(3) [OF ok [unfolded split]]]
  have e3: "system_events i (effects_of (run (state_of ?r) post)) =
      joined v # (if truthy v then [left v] else [])" .
  from run_through(4) [OF ok [unfolded split]] e1 e2 e3 show ?thesis
    unfolding split by (simp add: system_events_append)
qed

text \<open>A channel that carries no label keeps none, and emits no system message, through
  every event that is not a join of its own.\<close>

lemma step_unlabelled:
  assumes u: "unlabelled i s" and nj: "\<not> is_join i e"
  shows "unlabelled i (state_of (step e s)) \<and> system_events i (effects_of (step e s)) = []"
proof (cases "lifecycle i e")
  case False
  from step_other [OF False, of s] u show ?thesis by (simp add: unlabelled_def)
next
  case True
  with nj consider (conn) "e = Ev_connection i" | (disc) "e = Ev_disconnect i"
    by (cases e) auto
  then show ?thesis
  proof cases
    case conn
    show ?thesis
    proof (cases "register i s")
      case None
      with conn u show ?thesis by simp
    next
      case (Some s')
      from find_socket_register [OF Some, of i] conn Some show ?thesis
        by (simp add: unlabelled_def)
    qed
  next
    case disc
    show ?thesis
    proof (cases "unregister i s")
      case None
      with disc u show ?thesis by simp
    next
      case (Some p)
      obtain k s' where p: "p = (k, s')" by (cases p)
      from find_socket_unregister [OF Some [unfolded p], of i]
      have k: "find_socket i s = Some k" and gone: "find_socket i s' = None" by simp_all
      from u k have "username k = JUndefined" by (simp add: unlabelled_def)
      with disc Some p gone show ?thesis
        by (simp add: on_disconnect_def unlabelled_def)
    qed
  qed
qed

lemma run_unlabelled:
  "unlabelled i s \<Longrightarrow> filter (is_join i) evs = [] \<Longrightarrow>
     system_events i (effects_of (run s evs)) = []"
proof (induction evs arbitrary: s)
  case Nil
  show ?case by simp
next
  case (Cons e es)
  from Cons.prems have nj: "\<not> is_join i e" and rest: "filter (is_join i) es = []"
    by (auto split: if_splits)
  note st = step_unlabelled [OF Cons.prems(1) nj]
  show ?case
  proof (cases "status_of (step e s) = Running")
    case True
    from Cons.IH [OF _ rest, of "state_of (step e s)"] st show ?thesis
      by (simp add: run_Cons_Running [OF True] system_events_append)
  next
    case False
    with st show ?thesis by (simp add: run_Cons_stopped)
  qed
qed

section \<open>Presence notifications over a channel's life\<close>

text \<open>
  Claim C4. A channel that never sends a join event produces no system event: from a state
  in which the identifier \<open>i\<close> is not connected, over any sequence of events that holds no
  \<open>user_joined\<close> of \<open>i\<close> (its connection, its chat messages, its disconnection and the
  events of all other channels), no handler of \<open>i\<close> emits a system message, neither a
  "has joined the chat" nor, on disconnect, a "has left the chat".
\<close>

theorem no_join_no_system_events:
  assumes "find_socket i s = None" and "filter (is_join i) evs = []"
  shows "system_events i (effects_of (run s evs)) = []"
  using assms run_unlabelled [of i s evs] by (simp add: unlabelled_def)

theorem no_join_no_system_events_witness:
  "find_socket 0 initial = None \<and>
   filter (is_join 0)
     [Ev_connection 0, Ev_connection 1, Ev_user_joined 1 (JStr ''bob''),
      Ev_message 0 (JObj [(''text'', JStr ''hi''), (''username'', JStr ''carol'')]),
      Ev_disconnect 0] = [] \<and>
   system_events 0 (effects_of (run initial
     [Ev_connection 0, Ev_connection 1, Ev_user_joined 1 (JStr ''bob''),
      Ev_message 0 (JObj [(''text'', JStr ''hi''), (''username'', JStr ''carol'')]),
      Ev_disconnect 0])) = [] \<and>
   status_of (run initial
     [Ev_connection 0, Ev_connection 1, Ev_user_joined 1 (JStr ''bob''),
      Ev_message 0 (JObj [(''text'', JStr ''hi''), (''username'', JStr ''carol'')]),
      Ev_disconnect 0]) = Running"
proof -
  let ?evs = "[Ev_connection 0, Ev_connection 1, Ev_user_joined 1 (JStr ''bob''),
      Ev_message 0 (JObj [(''text'', JStr ''hi''), (''username'', JStr ''carol'')]),
      Ev_disconnect 0]"
  have h1: "find_socket 0 initial = None" by (simp add: find_socket_def initial_def)
  have h2: "filter (is_join 0) ?evs = []" by simp
  have h3: "status_of (run initial ?evs) = Running" by code_simp
  from no_join_no_system_events [OF h1 h2] h1 h2 h3 show ?thesis by simp
qed

text \<open>
  Claim C2. A channel that connects, sends exactly one join event with the label "alice"
  and then disconnects produces, over a run that the process completes, exactly two system
  events: "has joined the chat" for alice, then "has left the chat" for alice, in that
  order. The other events of the run (chat messages of the channel, everything the other
  channels do) are arbitrary.
\<close>

theorem alice_two_system_events:
  assumes "find_socket i s = None"
    and "filter (lifecycle i) evs =
           [Ev_connection i, Ev_user_joined i (JStr ''alice''), Ev_disconnect i]"
    and "status_of (run s evs) = Running"
  shows "system_events i (effects_of (run s evs)) =
           [\<lparr>md_text = JStr ''has joined the chat'', md_username = JStr ''alice'', md_type = System\<rparr>,
            \<lparr>md_text = JStr ''has left the chat'', md_username = JStr ''alice'', md_type = System\<rparr>]"
  using lifetime [OF assms] by (simp add: joined_def left_def)

theorem alice_two_system_events_witness:
  "find_socket 0 initial = None \<and>
   filter (lifecycle 0)
     [Ev_connection 0, Ev_connection 1, Ev_user_joined 0 (JStr ''alice''),
      Ev_message 1 (JObj [(''text'', JStr ''hi''), (''username'', JStr ''bob'')]),
      Ev_disconnect 0] =
     [Ev_connection 0, Ev_user_joined 0 (JStr ''alice''), Ev_disconnect 0] \<and>
   status_of (run initial
     [Ev_connection 0, Ev_connection 1, Ev_user_joined 0 (JStr ''alice''),
      Ev_message 1 (JObj [(''text'', JStr ''hi''), (''username'', JStr ''bob'')]),
      Ev_disconnect 0]) = Running \<and>
   system_events 0 (effects_of (run initial
     [Ev_connection 0, Ev_connection 1, Ev_user_joined 0 (JStr ''alice''),
      Ev_message 1 (JObj [(''text'', JStr ''hi''), (''username'', JStr ''bob'')]),
      Ev_disconnect 0])) =
     [\<lparr>md_text = JStr ''has joined the chat'', md_username = JStr ''alice'', md_type = System\<rparr>,
      \<lparr>md_text = JStr ''has left the chat'', md_username = JStr ''alice'', md_type = System\<rparr>]"
proof -
  let ?evs = "[Ev_connection 0, Ev_connection 1, Ev_user_joined 0 (JStr ''alice''),
      Ev_message 1 (JObj [(''text'', JStr ''hi''), (''username'', JStr ''bob'')]),
      Ev_disconnect 0]"
  have h1: "find_socket 0 initial = None" by (simp add: find_socket_def initial_def)
  have h2: "filter (lifecycle 0) ?evs =
      [Ev_connection 0, Ev_user_joined 0 (JStr ''alice''), Ev_disconnect 0]" by simp
  have h3: "status_of (run initial ?evs) = Running" by code_simp
  from alice_two_system_events [OF h1 h2 h3] h1 h2 h3 show ?thesis by simp
qed

text \<open>
  Claim C10. When the only join event of a channel carries the empty string, the joined
  broadcast is made, but the disconnect handler tests the stored label for truthiness and
  the empty string is falsy: the single system event of the channel's life is the
  "has joined the chat" one, and no "has left the chat" follows.
\<close>

theorem empty_label_joined_but_not_left:
  assumes "find_socket i s = None"
    and "filter (lifecycle i) evs = [Ev_connection i, Ev_user_joined i (JStr ''''), Ev_disconnect i]"
    and "status_of (run s evs) = Running"
  shows "system_events i (effects_of (run s evs)) =
           [\<lparr>md_text = JStr ''has joined the chat'', md_username = JStr '''', md_type = System\<rparr>]"
  using lifetime [OF assms] by (simp add: joined_def)

theorem empty_label_joined_but_not_left_witness:
  "find_socket 0 initial = None \<and>
   filter (lifecycle 0) [Ev_connection 0, Ev_connection 1, Ev_user_joined 0 (JStr ''''), Ev_disconnect 0] =
     [Ev_connection 0, Ev_user_joined 0 (JStr ''''), Ev_disconnect 0] \<and>
   status_of (run initial
     [Ev_connection 0, Ev_connection 1, Ev_user_joined 0 (JStr ''''), Ev_disconnect 0]) = Running \<and>
   system_events 0 (effects_of (run initial
     [Ev_connection 0, Ev_connection 1, Ev_user_joined 0 (JStr ''''), Ev_disconnect 0])) =
     [\<lparr>md_text = JStr ''has joined the chat'', md_username = JStr '''', md_type = System\<rparr>]"
proof -
  let ?evs = "[Ev_connection 0, Ev_connection 1, Ev_user_joined 0 (JStr ''''), Ev_disconnect 0]"
  have h1: "find_socket 0 initial = None" by (simp add: find_socket_def initial_def)
  have h2: "filter (lifecycle 0) ?evs =
      [Ev_connection 0, Ev_user_joined 0 (JStr ''''), Ev_disconnect 0]" by simp
  have h3: "status_of (run initial ?evs) = Running" by code_simp
  from empty_label_joined_but_not_left [OF h1 h2 h3] h1 h2 h3 show ?thesis by simp
qed

section \<open>The handlers, event by event\<close>

lemma all_channels_set_username: "all_channels (set_username i v s) = all_channels s"
  by (simp add: all_channels_def set_username_def comp_def)

lemma find_socket_member: "find_socket i s = Some k \<Longrightarrow> i \<in> set (all_channels s)"
  unfolding find_socket_def all_channels_def
  by (induction "sockets s" arbitrary: s) (auto simp: find_Some_iff)

text \<open>
  Claim C1, as the code has it. The \<open>user_joined\<close> handler has no first-assignment gate:
  every join event of a connected channel, whatever label the channel already carries,
  logs the join and broadcasts the system message "has joined the chat" with the label of
  that event to every connected channel.
\<close>

theorem every_join_broadcasts:
  assumes "find_socket i s = Some k"
  shows "effects_of (step (Ev_user_joined i v) s) =
           [ConsoleLog [JStr ''User joined:'', v],
            Emit i (all_channels s)
              \<lparr>md_text = JStr ''has joined the chat'', md_username = v, md_type = System\<rparr>]"
  using assms
  by (simp add: on_user_joined_def Let_def io_emit_def joined_def all_channels_set_username)

theorem every_join_broadcasts_witness:
  "find_socket 0 \<lparr>sockets = [\<lparr>sid = 0, username = JStr ''alice''\<rparr>, \<lparr>sid = 1, username = JUndefined\<rparr>]\<rparr> =
     Some \<lparr>sid = 0, username = JStr ''alice''\<rparr> \<and>
   effects_of (step (Ev_user_joined 0 (JStr ''bob''))
       \<lparr>sockets = [\<lparr>sid = 0, username = JStr ''alice''\<rparr>, \<lparr>sid = 1, username = JUndefined\<rparr>]\<rparr>) =
     [ConsoleLog [JStr ''User joined:'', JStr ''bob''],
      Emit 0 [0, 1]
        \<lparr>md_text = JStr ''has joined the chat'', md_username = JStr ''bob'', md_type = System\<rparr>]"
proof -
  let ?s = "\<lparr>sockets = [\<lparr>sid = 0, username = JStr ''alice''\<rparr>, \<lparr>sid = 1, username = JUndefined\<rparr>]\<rparr>"
  have h: "find_socket 0 ?s = Some \<lparr>sid = 0, username = JStr ''alice''\<rparr>"
    by (simp add: find_socket_def)
  from every_join_broadcasts [OF h, of "JStr ''bob''"] h show ?thesis
    by (simp add: all_channels_def)
qed

text \<open>
  A channel that joins as alice and then joins again as bob triggers two joined
  broadcasts, the second one on an already labelled channel.
\<close>

theorem second_join_broadcasts_again:
  "system_events 0 (effects_of (run initial
      [Ev_connection 0, Ev_user_joined 0 (JStr ''alice''), Ev_user_joined 0 (JStr ''bob'')])) =
     [\<lparr>md_text = JStr ''has joined the chat'', md_username = JStr ''alice'', md_type = System\<rparr>,
      \<lparr>md_text = JStr ''has joined the chat'', md_username = JStr ''bob'', md_type = System\<rparr>]"
  by code_simp

text \<open>
  Claim C5, as the code has it. The handler assigns \<^verbatim>\<open>socket.username = username\<close>
  unconditionally: after a join event of a connected channel the stored label is the label
  of that event, whatever was stored before. The latest join wins.
\<close>

theorem join_overwrites_label:
  assumes "find_socket i s = Some k"
  shows "find_socket i (state_of (step (Ev_user_joined i v) s)) = Some (k\<lparr>username := v\<rparr>)"
  using assms by (simp add: on_user_joined_def Let_def find_socket_set_username)

theorem join_overwrites_label_witness:
  "find_socket 0 \<lparr>sockets = [\<lparr>sid = 0, username = JStr ''alice''\<rparr>]\<rparr> =
     Some \<lparr>sid = 0, username = JStr ''alice''\<rparr> \<and>
   find_socket 0 (state_of (step (Ev_user_joined 0 (JStr ''bob''))
       \<lparr>sockets = [\<lparr>sid = 0, username = JStr ''alice''\<rparr>]\<rparr>)) =
     Some \<lparr>sid = 0, username = JStr ''bob''\<rparr>"
proof -
  have h: "find_socket 0 \<lparr>sockets = [\<lparr>sid = 0, username = JStr ''alice''\<rparr>]\<rparr> =
      Some \<lparr>sid = 0, username = JStr ''alice''\<rparr>"
    by (simp add: find_socket_def)
  from join_overwrites_label [OF h, of "JStr ''bob''"] h show ?thesis by simp
qed

text \<open>
  After joining as alice the stored label is alice; a second join as bob replaces it.
\<close>

theorem second_join_changes_label:
  "find_socket 0 (state_of (run initial [Ev_connection 0, Ev_user_joined 0 (JStr ''alice'')])) =
     Some \<lparr>sid = 0, username = JStr ''alice''\<rparr> \<and>
   find_socket 0 (state_of (run initial
      [Ev_connection 0, Ev_user_joined 0 (JStr ''alice''), Ev_user_joined 0 (JStr ''bob'')])) =
     Some \<lparr>sid = 0, username = JStr ''bob''\<rparr>"
  by code_simp

text \<open>
  Claim C3. A chat event of a connected channel whose payload yields a text \<open>t\<close> and a label
  \<open>u\<close> is broadcast to every connected channel, the sender among them, as the message with
  exactly that text and that label and with the kind \<open>user\<close>. Neither the label stored for
  the channel by a join nor the kind the client supplied enters the result, and the
  registry is left as it was.
\<close>

theorem message_broadcast_verbatim_as_user:
  assumes "find_socket i s = Some k"
    and "getProp message ''text'' = Inr t"
    and "getProp message ''username'' = Inr u"
  shows "step (Ev_message i message) s =
           (s, [ConsoleLog [JStr ''Message received:'', message],
                Emit i (all_channels s) \<lparr>md_text = t, md_username = u, md_type = User\<rparr>],
            Running) \<and>
         i \<in> set (all_channels s)"
  using assms find_socket_member [of i s k] by (simp add: on_message_def io_emit_def)

theorem message_broadcast_verbatim_as_user_witness:
  "find_socket 1 \<lparr>sockets = [\<lparr>sid = 0, username = JUndefined\<rparr>, \<lparr>sid = 1, username = JStr ''alice''\<rparr>]\<rparr> =
     Some \<lparr>sid = 1, username = JStr ''alice''\<rparr> \<and>
   getProp (JObj [(''text'', JStr ''hi''), (''username'', JStr ''mallory''), (''type'', JStr ''system'')])
     ''text'' = Inr (JStr ''hi'') \<and>
   getProp (JObj [(''text'', JStr ''hi''), (''username'', JStr ''mallory''), (''type'', JStr ''system'')])
     ''username'' = Inr (JStr ''mallory'') \<and>
   step (Ev_message 1
       (JObj [(''text'', JStr ''hi''), (''username'', JStr ''mallory''), (''type'', JStr ''system'')]))
     \<lparr>sockets = [\<lparr>sid = 0, username = JUndefined\<rparr>, \<lparr>sid = 1, username = JStr ''alice''\<rparr>]\<rparr> =
     (\<lparr>sockets = [\<lparr>sid = 0, username = JUndefined\<rparr>, \<lparr>sid = 1, username = JStr ''alice''\<rparr>]\<rparr>,
      [ConsoleLog [JStr ''Message received:'',
         JObj [(''text'', JStr ''hi''), (''username'', JStr ''mallory''), (''type'', JStr ''system'')]],
       Emit 1 [0, 1] \<lparr>md_text = JStr ''hi'', md_username = JStr ''mallory'', md_type = User\<rparr>],
      Running)"
proof -
  let ?s = "\<lparr>sockets = [\<lparr>sid = 0, username = JUndefined\<rparr>, \<lparr>sid = 1, username = JStr ''alice''\<rparr>]\<rparr>"
  let ?m = "JObj [(''text'', JStr ''hi''), (''username'', JStr ''mallory''), (''type'', JStr ''system'')]"
  have h1: "find_socket 1 ?s = Some \<lparr>sid = 1, username = JStr ''alice''\<rparr>"
    by (simp add: find_socket_def)
  have h2: "getProp ?m ''text'' = Inr (JStr ''hi'')" by simp
  have h3: "getProp ?m ''username'' = Inr (JStr ''mallory'')" by simp
  have a: "all_channels ?s = [0, 1]" by (simp add: all_channels_def)
  from message_broadcast_verbatim_as_user [OF h1 h2 h3] h1 h2 h3 show ?thesis
    unfolding a by simp
qed

text \<open>
  Claim C6, as the code has it. No handler validates its payload. A handler throws in
  exactly one case: a chat event of a connected channel whose payload is absent
  (\<open>undefined\<close> or \<open>null\<close>), where the read of \<open>message.text\<close> raises a \<open>TypeError\<close> that
  leaves the handler. Every other inbound event is handled without raising; a chat
  payload that lacks \<open>text\<close> or \<open>username\<close> is broadcast with \<open>undefined\<close> in its place, and a
  join event is accepted whatever it carries.
\<close>

theorem handler_raises_only_on_absent_chat_payload:
  "(status_of (step e s) = Uncaught TypeError) =
     (\<exists>i message. e = Ev_message i message \<and> find_socket i s \<noteq> None \<and>
        (message = JUndefined \<or> message = JNull))"
proof (cases e)
  case (Ev_message i message)
  then show ?thesis
    by (cases message) (auto simp: on_message_def split: option.splits)
qed (auto simp: on_user_joined_def on_disconnect_def on_error_def Let_def split: option.splits)

theorem handler_raises_only_on_absent_chat_payload_witness:
  "status_of (step (Ev_message 0 (JObj [(''username'', JStr ''alice'')]))
      \<lparr>sockets = [\<lparr>sid = 0, username = JStr ''alice''\<rparr>]\<rparr>) \<noteq> Uncaught TypeError \<and>
   effects_of (step (Ev_message 0 (JObj [(''username'', JStr ''alice'')]))
      \<lparr>sockets = [\<lparr>sid = 0, username = JStr ''alice''\<rparr>]\<rparr>) =
     [ConsoleLog [JStr ''Message received:'', JObj [(''username'', JStr ''alice'')]],
      Emit 0 [0] \<lparr>md_text = JUndefined, md_username = JStr ''alice'', md_type = User\<rparr>]"
  using handler_raises_only_on_absent_chat_payload
    [of "Ev_message 0 (JObj [(''username'', JStr ''alice'')])"
        "\<lparr>sockets = [\<lparr>sid = 0, username = JStr ''alice''\<rparr>]\<rparr>"]
  by (simp add: on_message_def find_socket_def io_emit_def all_channels_def)

text \<open>
  A chat event with no payload: the handler logs it, then throws; nothing is broadcast.
\<close>

theorem absent_chat_payload_raises:
  "step (Ev_message 0 JUndefined) \<lparr>sockets = [\<lparr>sid = 0, username = JStr ''alice''\<rparr>]\<rparr> =
     (\<lparr>sockets = [\<lparr>sid = 0, username = JStr ''alice''\<rparr>]\<rparr>,
      [ConsoleLog [JStr ''Message received:'', JUndefined]], Uncaught TypeError)"
  by (simp add: on_message_def find_socket_def)

text \<open>
  Claim C7. Unregistering is idempotent: once a disconnect of \<open>i\<close> has been processed, the
  registry reports "not found" for \<open>i\<close>, and a second disconnect of \<open>i\<close> changes nothing and
  emits nothing, in particular no second "has left the chat". The disconnect handler keeps
  no record of its own of having run; it is reached only through the registry, which has
  dropped the socket.
\<close>

theorem second_disconnect_is_noop:
  "unregister i (state_of (step (Ev_disconnect i) s)) = None \<and>
   step (Ev_disconnect i) (state_of (step (Ev_disconnect i) s)) =
     (state_of (step (Ev_disconnect i) s), [], Running)"
proof (cases "unregister i s")
  case None
  then show ?thesis by simp
next
  case (Some p)
  obtain k s' where p: "p = (k, s')" by (cases p)
  from find_socket_unregister [OF Some [unfolded p], of i]
  have "find_socket i s' = None" by simp
  then have "unregister i s' = None" by (simp add: unregister_None)
  with Some p show ?thesis by (simp add: on_disconnect_def)
qed

theorem second_disconnect_is_noop_witness:
  "effects_of (step (Ev_disconnect 0)
      \<lparr>sockets = [\<lparr>sid = 0, username = JStr ''alice''\<rparr>, \<lparr>sid = 1, username = JUndefined\<rparr>]\<rparr>) =
     [ConsoleLog [JStr ''User disconnected:'', JStr ''alice''],
      Emit 0 [1] \<lparr>md_text = JStr ''has left the chat'', md_username = JStr ''alice'', md_type = System\<rparr>] \<and>
   unregister 0 (state_of (step (Ev_disconnect 0)
      \<lparr>sockets = [\<lparr>sid = 0, username = JStr ''alice''\<rparr>, \<lparr>sid = 1, username = JUndefined\<rparr>]\<rparr>)) = None \<and>
   effects_of (step (Ev_disconnect 0) (state_of (step (Ev_disconnect 0)
      \<lparr>sockets = [\<lparr>sid = 0, username = JStr ''alice''\<rparr>, \<lparr>sid = 1, username = JUndefined\<rparr>]\<rparr>))) = []"
proof -
  let ?s = "\<lparr>sockets = [\<lparr>sid = 0, username = JStr ''alice''\<rparr>, \<lparr>sid = 1, username = JUndefined\<rparr>]\<rparr>"
  have first: "effects_of (step (Ev_disconnect 0) ?s) =
     [ConsoleLog [JStr ''User disconnected:'', JStr ''alice''],
      Emit 0 [1] \<lparr>md_text = JStr ''has left the chat'', md_username = JStr ''alice'', md_type = System\<rparr>]"
    by (simp add: unregister_def find_socket_def on_disconnect_def io_emit_def all_channels_def left_def)
  from second_disconnect_is_noop [of 0 ?s] first show ?thesis by simp
qed




section \<open>The client's message list\<close>

lemma receive_all_append:
  "receive_all ds prev =
     prev @ map (\<lambda>(rid, now, message).
       \<lparr>m_id = rid, m_text = md_text message, m_timestamp = now,
        m_username = md_username message, m_type = User\<rparr>) ds"
  by (induction ds prev rule: receive_all.induct) (simp_all add: onMessage_def)

text \<open>
  Claim C9. Whatever the server delivers, \<open>onMessage\<close> stores it with the type \<open>user\<close>: the
  \<open>type\<close> field of the delivery is not read. After any sequence of deliveries into the
  empty list, the stored messages carry the delivered texts and labels, every one of them
  has the type \<open>user\<close>, and the page renders every one with the class names of a user
  message. A "has joined the chat" or "has left the chat" system message is therefore
  never recorded as a system message.
\<close>

theorem client_stores_every_message_as_user:
  "receive_all ds [] =
     map (\<lambda>(rid, now, message).
       \<lparr>m_id = rid, m_text = md_text message, m_timestamp = now,
        m_username = md_username message, m_type = User\<rparr>) ds \<and>
   list_all (\<lambda>msg. m_type msg = User \<and>
       card_class msg = ''bg-white rounded-lg shadow-sm p-4 mb-3 border border-slate-100'' \<and>
       name_class msg = ''font-semibold text-slate-900'' \<and>
       text_class msg = ''text-slate-900 text-base'') (receive_all ds [])"
  by (auto simp: receive_all_append list_all_iff card_class_def name_class_def text_class_def)

theorem client_stores_every_message_as_user_witness:
  "receive_all [(''k3x9'', 1700000000000, joined (JStr ''alice''))] [] =
     [\<lparr>m_id = ''k3x9'', m_text = JStr ''has joined the chat'', m_timestamp = 1700000000000,
       m_username = JStr ''alice'', m_type = User\<rparr>] \<and>
   md_type (joined (JStr ''alice'')) = System"
  using client_stores_every_message_as_user [of "[(''k3x9'', 1700000000000, joined (JStr ''alice''))]"]
  by (simp add: joined_def)

end
